theory Spec2Isabelle
  imports Main "HOL-Library.Word"
begin

section \<open>The YAML module of Skycfg: go/yamlmodule/yamlmodule.go\<close>

subsection \<open>Go values held in an \<open>interface{}\<close>\<close>

text \<open>
  \<open>reflect.Kind\<close>, the enumeration the two conversion functions switch on.
\<close>

datatype Kind =
    KInvalid | KBool
  | KInt | KInt8 | KInt16 | KInt32 | KInt64
  | KUint | KUint8 | KUint16 | KUint32 | KUint64 | KUintptr
  | KFloat32 | KFloat64 | KComplex64 | KComplex128
  | KArray | KChan | KFunc | KInterface | KMap | KPointer | KSlice
  | KString | KStruct | KUnsafePointer

text \<open>
  The kinds that neither \<open>toStarlarkScalarValue\<close> nor \<open>toStarlarkValue\<close> has a case
  for: a value of such a kind reaches the \<open>default\<close> branch of both switches.
\<close>

datatype other_kind =
    Uintptr | Complex64 | Complex128 | Array | Chan | Func | Pointer | Struct
  | UnsafePointer

text \<open>
  A float is carried as its IEEE-754 binary64 bit pattern (\<open>math.Float64bits\<close>); the
  module never computes with it.
\<close>

type_synonym float64 = "64 word"

text \<open>
  The dynamic value \<open>obj interface{}\<close>. One constructor for each kind the code
  distinguishes; \<open>int\<close> and \<open>uint\<close> are 64 bits wide. The payload of \<open>VFloat32\<close> is
  the value as \<open>reflect.Value.Float\<close> returns it, a \<open>float64\<close>. \<open>VMap\<close> is a
  \<open>map[interface{}]interface{}\<close>, given as its entries in the order in which the
  \<open>range\<close> statement visits them; \<open>VSlice\<close> is a \<open>[]interface{}\<close>. \<open>VMapOf\<close> and
  \<open>VSliceOf\<close> stand for a map and a slice of any other static type, whose kind is
  \<open>Map\<close> and \<open>Slice\<close> all the same. Go does not specify the order of \<open>range\<close>
  over a map, so the list of a \<open>VMap\<close> is any one order of its entries. A key of a
  Go map is of a comparable type, never a slice or a map; the datatype does not ask
  that, and what is proved of a \<open>VMap\<close> holds of every list of entries.
\<close>

datatype go_value =
    Nil
  | VBool bool
  | VInt "64 word" | VInt8 "8 word" | VInt16 "16 word" | VInt32 "32 word" | VInt64 "64 word"
  | VUint "64 word" | VUint8 "8 word" | VUint16 "16 word" | VUint32 "32 word"
  | VUint64 "64 word"
  | VFloat32 float64 | VFloat64 float64
  | VString string
  | VMap "(go_value \<times> go_value) list"
  | VSlice "go_value list"
  | VMapOf
  | VSliceOf
  | VOther other_kind

fun Kind_other :: "other_kind \<Rightarrow> Kind" where
  "Kind_other Uintptr = KUintptr"
| "Kind_other Complex64 = KComplex64"
| "Kind_other Complex128 = KComplex128"
| "Kind_other Array = KArray"
| "Kind_other Chan = KChan"
| "Kind_other Func = KFunc"
| "Kind_other Pointer = KPointer"
| "Kind_other Struct = KStruct"
| "Kind_other UnsafePointer = KUnsafePointer"

text \<open>\<open>reflect.TypeOf(obj).Kind()\<close>; the code asks for it only when \<open>obj\<close> is not nil.\<close>

fun Kind_of :: "go_value \<Rightarrow> Kind" where
  "Kind_of Nil = KInvalid"
| "Kind_of (VBool _) = KBool"
| "Kind_of (VInt _) = KInt"
| "Kind_of (VInt8 _) = KInt8"
| "Kind_of (VInt16 _) = KInt16"
| "Kind_of (VInt32 _) = KInt32"
| "Kind_of (VInt64 _) = KInt64"
| "Kind_of (VUint _) = KUint"
| "Kind_of (VUint8 _) = KUint8"
| "Kind_of (VUint16 _) = KUint16"
| "Kind_of (VUint32 _) = KUint32"
| "Kind_of (VUint64 _) = KUint64"
| "Kind_of (VFloat32 _) = KFloat32"
| "Kind_of (VFloat64 _) = KFloat64"
| "Kind_of (VString _) = KString"
| "Kind_of (VMap _) = KMap"
| "Kind_of (VSlice _) = KSlice"
| "Kind_of VMapOf = KMap"
| "Kind_of VSliceOf = KSlice"
| "Kind_of (VOther k) = Kind_other k"

text \<open>
  \<open>reflect.Value.Int\<close> and \<open>reflect.Value.Uint\<close>: the value widened to 64 bits, with
  and without sign extension. Go panics when the kind is not an integer kind, and the
  code calls them under the matching \<open>case\<close> only; here that is \<open>None\<close>.
\<close>

fun Value_Int :: "go_value \<Rightarrow> 64 word option" where
  "Value_Int (VInt w) = Some w"
| "Value_Int (VInt8 w) = Some (scast w)"
| "Value_Int (VInt16 w) = Some (scast w)"
| "Value_Int (VInt32 w) = Some (scast w)"
| "Value_Int (VInt64 w) = Some w"
| "Value_Int _ = None"

fun Value_Uint :: "go_value \<Rightarrow> 64 word option" where
  "Value_Uint (VUint w) = Some w"
| "Value_Uint (VUint8 w) = Some (ucast w)"
| "Value_Uint (VUint16 w) = Some (ucast w)"
| "Value_Uint (VUint32 w) = Some (ucast w)"
| "Value_Uint (VUint64 w) = Some w"
| "Value_Uint _ = None"

fun Value_Bool :: "go_value \<Rightarrow> bool option" where
  "Value_Bool (VBool b) = Some b"
| "Value_Bool _ = None"

fun Value_Float :: "go_value \<Rightarrow> float64 option" where
  "Value_Float (VFloat32 f) = Some f"
| "Value_Float (VFloat64 f) = Some f"
| "Value_Float _ = None"

fun Value_String :: "go_value \<Rightarrow> string option" where
  "Value_String (VString s) = Some s"
| "Value_String _ = None"

subsection \<open>Starlark values\<close>

text \<open>
  The values of the runtime that the module builds. \<open>Int\<close> is of arbitrary
  precision. A \<open>Dict\<close> keeps its entries in insertion order.
\<close>

datatype starlark_value =
    SNone
  | SBool bool
  | SInt int
  | SFloat float64
  | SString string
  | SList "starlark_value list"
  | SDict "(starlark_value \<times> starlark_value) list"

definition MakeInt64 :: "64 word \<Rightarrow> starlark_value" where
  "MakeInt64 x = SInt (sint x)"

definition MakeUint64 :: "64 word \<Rightarrow> starlark_value" where
  "MakeUint64 x = SInt (uint x)"

definition NewList :: "starlark_value list \<Rightarrow> starlark_value" where
  "NewList elems = SList elems"

subsection \<open>Errors\<close>

text \<open>
  Every error the module returns, with the arguments of its message.
  \<open>NotSupportedKeyType k obj\<close> is
  \<open>fmt.Errorf("%s (%v) is not a supported key type", k, obj)\<close> and
  \<open>NotSupportedType k obj\<close> is \<open>fmt.Errorf("%s (%v) is not a supported type", k, obj)\<close>.
  The first three are the errors of \<open>starlark.UnpackPositionalArgs\<close>, with the name
  of the function first. \<open>Codec msg\<close> is an error returned by one of the codecs the
  module calls. \<open>Unhashable\<close> is the error of \<open>Dict.SetKey\<close>. A failed type assertion
  is a panic of the Go runtime.
\<close>

datatype error =
    UnexpectedKeywordArguments string
  | WrongArgumentCount string nat nat
  | ForParameter string nat string
  | Codec string
  | NotSupportedKeyType Kind go_value
  | NotSupportedType Kind go_value
  | Unhashable string
  | PanicTypeAssertion go_value

subsection \<open>Dict.SetKey\<close>

text \<open>
  The type name of a value (\<open>Value.Type\<close>) and whether it can be hashed
  (\<open>Value.Hash\<close>): lists and dicts cannot.
\<close>

fun Type_of :: "starlark_value \<Rightarrow> string" where
  "Type_of SNone = ''NoneType''"
| "Type_of (SBool _) = ''bool''"
| "Type_of (SInt _) = ''int''"
| "Type_of (SFloat _) = ''float''"
| "Type_of (SString _) = ''string''"
| "Type_of (SList _) = ''list''"
| "Type_of (SDict _) = ''dict''"

fun hashable :: "starlark_value \<Rightarrow> bool" where
  "hashable (SList _) = False"
| "hashable (SDict _) = False"
| "hashable _ = True"

text \<open>
  The hash table of a \<open>Dict\<close>: the entries in insertion order. \<open>insert\<close> looks for an
  entry whose key equals the new key and overwrites its value in place, and appends a
  new entry otherwise. The equality of keys is the runtime's \<open>Equals\<close>, a parameter
  \<open>keq\<close> here. \<open>ht_lookup\<close> is the lookup of \<open>Dict.Get\<close>: the value of the entry
  whose key equals the given one.
\<close>

fun ht_insert :: "(starlark_value \<Rightarrow> starlark_value \<Rightarrow> bool) \<Rightarrow>
    (starlark_value \<times> starlark_value) list \<Rightarrow> starlark_value \<Rightarrow> starlark_value \<Rightarrow>
    (starlark_value \<times> starlark_value) list" where
  "ht_insert keq [] k v = [(k, v)]"
| "ht_insert keq ((k', v') # es) k v =
     (if keq k k' then (k', v) # es else (k', v') # ht_insert keq es k v)"

fun ht_lookup :: "(starlark_value \<Rightarrow> starlark_value \<Rightarrow> bool) \<Rightarrow>
    (starlark_value \<times> starlark_value) list \<Rightarrow> starlark_value \<Rightarrow> starlark_value option" where
  "ht_lookup keq [] k = None"
| "ht_lookup keq ((k', v') # es) k = (if keq k k' then Some v' else ht_lookup keq es k)"

text \<open>No two entries of a table have equal keys: a later key equals no earlier one.\<close>

fun dict_distinct :: "(starlark_value \<Rightarrow> starlark_value \<Rightarrow> bool) \<Rightarrow>
    (starlark_value \<times> starlark_value) list \<Rightarrow> bool" where
  "dict_distinct keq [] = True"
| "dict_distinct keq ((k, v) # es) = ((\<forall>e \<in> set es. \<not> keq (fst e) k) \<and> dict_distinct keq es)"

definition SetKey :: "(starlark_value \<Rightarrow> starlark_value \<Rightarrow> bool) \<Rightarrow>
    (starlark_value \<times> starlark_value) list \<Rightarrow> starlark_value \<Rightarrow> starlark_value \<Rightarrow>
    error + (starlark_value \<times> starlark_value) list" where
  "SetKey keq d k v =
     (if hashable k then Inr (ht_insert keq d k v) else Inl (Unhashable (Type_of k)))"

subsection \<open>The decoder\<close>

text \<open>
  \<open>toStarlarkScalarValue\<close>: nil first, then the switch on the kind; the result
  \<open>(nil, false)\<close> of the \<open>default\<close> branch is \<open>None\<close>.
\<close>

definition toStarlarkScalarValue :: "go_value \<Rightarrow> starlark_value option" where
  "toStarlarkScalarValue obj =
     (if obj = Nil then Some SNone
      else (case Kind_of obj of
          KInt \<Rightarrow> map_option MakeInt64 (Value_Int obj)
        | KInt8 \<Rightarrow> map_option MakeInt64 (Value_Int obj)
        | KInt16 \<Rightarrow> map_option MakeInt64 (Value_Int obj)
        | KInt32 \<Rightarrow> map_option MakeInt64 (Value_Int obj)
        | KInt64 \<Rightarrow> map_option MakeInt64 (Value_Int obj)
        | KUint \<Rightarrow> map_option MakeUint64 (Value_Uint obj)
        | KUint8 \<Rightarrow> map_option MakeUint64 (Value_Uint obj)
        | KUint16 \<Rightarrow> map_option MakeUint64 (Value_Uint obj)
        | KUint32 \<Rightarrow> map_option MakeUint64 (Value_Uint obj)
        | KUint64 \<Rightarrow> map_option MakeUint64 (Value_Uint obj)
        | KBool \<Rightarrow> map_option SBool (Value_Bool obj)
        | KFloat32 \<Rightarrow> map_option SFloat (Value_Float obj)
        | KFloat64 \<Rightarrow> map_option SFloat (Value_Float obj)
        | KString \<Rightarrow> map_option SString (Value_String obj)
        | _ \<Rightarrow> None))"

text \<open>
  \<open>toStarlarkValue\<close> with its two loops. \<open>map_loop\<close> is the body of
  \<open>for k, v := range obj.(map[interface{}]interface{})\<close> over the entries still to
  visit, with \<open>ret\<close> the dict built so far; \<open>slice_loop\<close> is the body of
  \<open>for i, element := range slice\<close>. The code allocates \<open>starvals\<close> with the length
  of the slice and stores at index \<open>i\<close> for \<open>i = 0, 1, ...\<close>; here \<open>starvals\<close> is
  the part stored so far, \<open>i\<close> its length, and the store appends. The list is
  complete when the loop ends, and only then is it used.
\<close>

fun toStarlarkValue :: "(starlark_value \<Rightarrow> starlark_value \<Rightarrow> bool) \<Rightarrow> go_value \<Rightarrow>
      error + starlark_value"
  and map_loop :: "(starlark_value \<Rightarrow> starlark_value \<Rightarrow> bool) \<Rightarrow> go_value \<Rightarrow>
      (starlark_value \<times> starlark_value) list \<Rightarrow> (go_value \<times> go_value) list \<Rightarrow>
      error + starlark_value"
  and slice_loop :: "(starlark_value \<Rightarrow> starlark_value \<Rightarrow> bool) \<Rightarrow>
      starlark_value list \<Rightarrow> go_value list \<Rightarrow> error + starlark_value" where
  "toStarlarkValue keq obj =
     (case toStarlarkScalarValue obj of
        Some objval \<Rightarrow> Inr objval
      | None \<Rightarrow>
         (case Kind_of obj of
            KMap \<Rightarrow>
             (case obj of
                VMap entries \<Rightarrow> map_loop keq obj [] entries
              | _ \<Rightarrow> Inl (PanicTypeAssertion obj))
          | KSlice \<Rightarrow>
             (case obj of
                VSlice elements \<Rightarrow> slice_loop keq [] elements
              | _ \<Rightarrow> Inl (PanicTypeAssertion obj))
          | _ \<Rightarrow> Inl (NotSupportedType (Kind_of obj) obj)))"
| "map_loop keq obj ret [] = Inr (SDict ret)"
| "map_loop keq obj ret ((k, v) # entries) =
     (case toStarlarkScalarValue k of
        None \<Rightarrow> Inl (NotSupportedKeyType (Kind_of obj) obj)
      | Some keyval \<Rightarrow>
         (case toStarlarkValue keq v of
            Inl err \<Rightarrow> Inl err
          | Inr starval \<Rightarrow>
             (case SetKey keq ret keyval starval of
                Inl err \<Rightarrow> Inl err
              | Inr ret' \<Rightarrow> map_loop keq obj ret' entries)))"
| "slice_loop keq starvals [] = Inr (NewList starvals)"
| "slice_loop keq starvals (element # elements) =
     (case toStarlarkValue keq element of
        Inl err \<Rightarrow> Inl err
      | Inr v \<Rightarrow> slice_loop keq (starvals @ [v]) elements)"

subsection \<open>The entry points\<close>

text \<open>
  \<open>starlark.UnpackPositionalArgs(fnname, args, kwargs, min, vars...)\<close> for one
  variable, which is what both entry points pass: it reports an error if \<open>kwargs\<close> is
  not empty, if there are fewer than \<open>min\<close> arguments (\<open>minargs\<close> here) or more than
  one, or if the argument does not convert to the type of the variable. \<open>unpack\<close> is
  that conversion and \<open>var\<close> the value the variable has before the call; the result
  is its value after the call.
\<close>

definition UnpackPositionalArgs :: "string \<Rightarrow> starlark_value list \<Rightarrow>
    (string \<times> starlark_value) list \<Rightarrow> nat \<Rightarrow> (starlark_value \<Rightarrow> string + 'a) \<Rightarrow> 'a \<Rightarrow>
    error + 'a" where
  "UnpackPositionalArgs fnname args kwargs minargs unpack var =
     (if length kwargs > 0 then Inl (UnexpectedKeywordArguments fnname)
      else if length args < minargs then
        Inl (WrongArgumentCount fnname (length args) minargs)
      else if length args > 1 then Inl (WrongArgumentCount fnname (length args) 1)
      else (case args of
              [] \<Rightarrow> Inr var
            | arg # _ \<Rightarrow>
               (case unpack arg of
                  Inl msg \<Rightarrow> Inl (ForParameter fnname 1 msg)
                | Inr x \<Rightarrow> Inr x)))"

text \<open>The conversions for a variable of type \<open>string\<close> and of type \<open>starlark.Value\<close>.\<close>

fun unpack_string :: "starlark_value \<Rightarrow> string + string" where
  "unpack_string (SString s) = Inr s"
| "unpack_string v = Inl (''got '' @ Type_of v @ '', want string'')"

definition unpack_Value :: "starlark_value \<Rightarrow> string + starlark_value" where
  "unpack_Value v = Inr v"

text \<open>
  \<open>yaml.Unmarshal(in, &out)\<close> with \<open>out\<close> an \<open>interface{}\<close>: the parser \<open>parse\<close>
  fails, or finds no document and leaves \<open>out\<close> as it was, or stores the document.
  The result is the error or the content of \<open>out\<close> after the call.
\<close>

type_synonym yaml_parser = "string \<Rightarrow> error + go_value option"

definition Unmarshal :: "yaml_parser \<Rightarrow> string \<Rightarrow> go_value \<Rightarrow> error + go_value" where
  "Unmarshal parse inp out =
     (case parse inp of
        Inl err \<Rightarrow> Inl err
      | Inr None \<Rightarrow> Inr out
      | Inr (Some doc) \<Rightarrow> Inr doc)"

text \<open>
  The two builtins. The thread is not used and is left out; \<open>fn_Name\<close> is
  \<open>fn.Name()\<close>. The keyword arguments are a parameter of both and \<open>nil\<close> is what both
  pass on to \<open>UnpackPositionalArgs\<close>.
\<close>

definition yamlDecode :: "yaml_parser \<Rightarrow> (starlark_value \<Rightarrow> starlark_value \<Rightarrow> bool) \<Rightarrow>
    string \<Rightarrow> starlark_value list \<Rightarrow> (string \<times> starlark_value) list \<Rightarrow>
    error + starlark_value" where
  "yamlDecode parse keq fn_Name args kwargs =
     (case UnpackPositionalArgs fn_Name args [] 1 unpack_string '''' of
        Inl err \<Rightarrow> Inl err
      | Inr blob \<Rightarrow>
         (case Unmarshal parse blob Nil of
            Inl err \<Rightarrow> Inl err
          | Inr inflated \<Rightarrow> toStarlarkValue keq inflated))"

text \<open>
  \<open>writeJSON\<close> is a function of the package that is defined in another file and
  \<open>yaml.Marshal\<close> is the serializer of the YAML library: both are parameters, from a
  value to the bytes written or an error.
\<close>

definition yamlEncode :: "(starlark_value \<Rightarrow> error + string) \<Rightarrow> yaml_parser \<Rightarrow>
    (go_value \<Rightarrow> error + string) \<Rightarrow>
    string \<Rightarrow> starlark_value list \<Rightarrow> (string \<times> starlark_value) list \<Rightarrow>
    error + starlark_value" where
  "yamlEncode writeJSON parse Marshal fn_Name args kwargs =
     (case UnpackPositionalArgs fn_Name args [] 1 unpack_Value SNone of
        Inl err \<Rightarrow> Inl err
      | Inr v \<Rightarrow>
         (case writeJSON v of
            Inl err \<Rightarrow> Inl err
          | Inr buf \<Rightarrow>
             (case Unmarshal parse buf Nil of
                Inl err \<Rightarrow> Inl err
              | Inr jsonObj \<Rightarrow>
                 (case Marshal jsonObj of
                    Inl err \<Rightarrow> Inl err
                  | Inr yamlBytes \<Rightarrow> Inr (SString yamlBytes)))))"

subsection \<open>The module\<close>

text \<open>
  A \<open>starlark.Builtin\<close> is a name and a Go function; calling it hands the function
  the builtin itself, of which the function reads the name.
\<close>

record Builtin =
  Name :: string
  impl :: "string \<Rightarrow> starlark_value list \<Rightarrow> (string \<times> starlark_value) list \<Rightarrow>
    error + starlark_value"

definition NewBuiltin :: "string \<Rightarrow>
    (string \<Rightarrow> starlark_value list \<Rightarrow> (string \<times> starlark_value) list \<Rightarrow>
      error + starlark_value) \<Rightarrow> Builtin" where
  "NewBuiltin name f = \<lparr>Name = name, impl = f\<rparr>"

definition CallInternal :: "Builtin \<Rightarrow> starlark_value list \<Rightarrow>
    (string \<times> starlark_value) list \<Rightarrow> error + starlark_value" where
  "CallInternal b args kwargs = impl b (Name b) args kwargs"

text \<open>The libraries the module is linked with.\<close>

record libraries =
  yaml_parse :: yaml_parser
  yaml_Marshal :: "go_value \<Rightarrow> error + string"
  json_write :: "starlark_value \<Rightarrow> error + string"
  Equals :: "starlark_value \<Rightarrow> starlark_value \<Rightarrow> bool"

definition starlarkDecode :: "libraries \<Rightarrow> Builtin" where
  "starlarkDecode L = NewBuiltin ''yaml.decode'' (yamlDecode (yaml_parse L) (Equals L))"

definition starlarkEncode :: "libraries \<Rightarrow> Builtin" where
  "starlarkEncode L =
     NewBuiltin ''yaml.encode'' (yamlEncode (json_write L) (yaml_parse L) (yaml_Marshal L))"

record Module =
  Module_Name :: string
  Members :: "string \<rightharpoonup> Builtin"

definition NewModule :: "libraries \<Rightarrow> Module" where
  "NewModule L =
     \<lparr>Module_Name = ''yaml'',
      Members = [''decode'' \<mapsto> starlarkDecode L,
                 ''encode'' \<mapsto> starlarkEncode L,
                 ''marshal'' \<mapsto> starlarkEncode L,
                 ''unmarshal'' \<mapsto> starlarkDecode L]\<rparr>"

text \<open>Calling the member \<open>name\<close> of a module, when it has one.\<close>

definition call_member :: "Module \<Rightarrow> string \<Rightarrow> starlark_value list \<Rightarrow>
    (string \<times> starlark_value) list \<Rightarrow> (error + starlark_value) option" where
  "call_member m name args kwargs =
     map_option (\<lambda>b. CallInternal b args kwargs) (Members m name)"

subsection \<open>The composition of the specification\<close>

text \<open>
  The specification gives the encoder as the composition
  \<open>YAMLSerialize(YAMLParse(JSONEncode(value)))\<close> of three steps that can each fail.
  \<open>and_then\<close> runs one fallible step after another and \<open>encode_composition\<close> is the
  three steps in that order.
\<close>

definition and_then :: "('a \<Rightarrow> error + 'b) \<Rightarrow> ('b \<Rightarrow> error + 'c) \<Rightarrow> 'a \<Rightarrow> error + 'c" where
  "and_then f g x = (case f x of Inl err \<Rightarrow> Inl err | Inr y \<Rightarrow> g y)"

definition encode_composition :: "(starlark_value \<Rightarrow> error + string) \<Rightarrow>
    (string \<Rightarrow> error + go_value) \<Rightarrow> (go_value \<Rightarrow> error + string) \<Rightarrow>
    starlark_value \<Rightarrow> error + string" where
  "encode_composition JSONEncode YAMLParse YAMLSerialize =
     and_then (and_then JSONEncode YAMLParse) YAMLSerialize"

subsection \<open>The data model of the specification\<close>

text \<open>
  The dynamic values of the specification are the tagged union of null, bool, the
  integers, the floats, strings, lists and maps. \<open>DynamicValue\<close> holds of a value all
  of whose list elements and map values, at every depth, are of these kinds. Nothing
  is asked of the keys of a map, which the decoder never descends into.
\<close>

fun DynamicValue :: "go_value \<Rightarrow> bool" where
  "DynamicValue (VMap entries) = (\<forall>e \<in> set entries. DynamicValue (snd e))"
| "DynamicValue (VSlice elements) = (\<forall>x \<in> set elements. DynamicValue x)"
| "DynamicValue VMapOf = False"
| "DynamicValue VSliceOf = False"
| "DynamicValue (VOther k) = False"
| "DynamicValue _ = True"

subsection \<open>The round trip of the specification\<close>



section \<open>Properties\<close>

subsection \<open>Scalars\<close>

text \<open>
  C1. A scalar dynamic value converts to the runtime value of its kind with the same
  underlying value: nil to \<open>None\<close>, a bool to the same bool, a signed integer of any
  width to the integer that its bits denote in two's complement, an unsigned integer
  of any width to the integer that its bits denote, a float to a float with the same
  64 bits, a string to the same bytes. The conversion never fails on a scalar.
\<close>

theorem scalar_conversion_exact:
  "toStarlarkValue keq Nil = Inr SNone
   \<and> toStarlarkValue keq (VBool b) = Inr (SBool b)
   \<and> toStarlarkValue keq (VInt i) = Inr (SInt (sint i))
   \<and> toStarlarkValue keq (VInt8 i8) = Inr (SInt (sint i8))
   \<and> toStarlarkValue keq (VInt16 i16) = Inr (SInt (sint i16))
   \<and> toStarlarkValue keq (VInt32 i32) = Inr (SInt (sint i32))
   \<and> toStarlarkValue keq (VInt64 i64) = Inr (SInt (sint i64))
   \<and> toStarlarkValue keq (VUint u) = Inr (SInt (uint u))
   \<and> toStarlarkValue keq (VUint8 u8) = Inr (SInt (uint u8))
   \<and> toStarlarkValue keq (VUint16 u16) = Inr (SInt (uint u16))
   \<and> toStarlarkValue keq (VUint32 u32) = Inr (SInt (uint u32))
   \<and> toStarlarkValue keq (VUint64 u64) = Inr (SInt (uint u64))
   \<and> toStarlarkValue keq (VFloat32 f) = Inr (SFloat f)
   \<and> toStarlarkValue keq (VFloat64 g) = Inr (SFloat g)
   \<and> toStarlarkValue keq (VString s) = Inr (SString s)"
  by (simp add: toStarlarkScalarValue_def MakeInt64_def MakeUint64_def
      sint_up_scast uint_up_ucast is_up)

subsection \<open>The branches of the decoder\<close>

lemma scalar_compound [simp]:
  "toStarlarkScalarValue (VMap m) = None"
  "toStarlarkScalarValue (VSlice xs) = None"
  "toStarlarkScalarValue VMapOf = None"
  "toStarlarkScalarValue VSliceOf = None"
  "toStarlarkScalarValue (VOther k) = None"
  by (simp_all add: toStarlarkScalarValue_def) (cases k; simp)

lemma conv_VSlice: "toStarlarkValue keq (VSlice xs) = slice_loop keq [] xs"
  by simp

lemma conv_VMap: "toStarlarkValue keq (VMap m) = map_loop keq (VMap m) [] m"
  by simp

lemma scalar_hashable:
  assumes "toStarlarkScalarValue k = Some a"
  shows "hashable a"
proof (cases k)
  case (VOther x)
  with assms show ?thesis by simp
qed (use assms in \<open>auto simp: toStarlarkScalarValue_def MakeInt64_def MakeUint64_def\<close>)

lemma SetKey_scalar:
  "toStarlarkScalarValue k = Some a \<Longrightarrow> SetKey keq d a v = Inr (ht_insert keq d a v)"
  by (simp add: SetKey_def scalar_hashable)

lemma conv_other:
  "toStarlarkValue keq VMapOf = Inl (PanicTypeAssertion VMapOf)"
  "toStarlarkValue keq VSliceOf = Inl (PanicTypeAssertion VSliceOf)"
  "toStarlarkValue keq (VOther k) = Inl (NotSupportedType (Kind_other k) (VOther k))"
  by (simp_all, cases k) simp_all

declare toStarlarkValue.simps [simp del]

lemma slice_loop_success:
  "list_all2 (\<lambda>x y. toStarlarkValue keq x = Inr y) xs ys \<Longrightarrow>
   slice_loop keq acc xs = Inr (SList (acc @ ys))"
  by (induction xs ys arbitrary: acc rule: list_all2_induct) (simp_all add: NewList_def)

lemma slice_loop_first_error:
  "\<forall>x \<in> set pre. \<exists>y. toStarlarkValue keq x = Inr y \<Longrightarrow> toStarlarkValue keq x = Inl e \<Longrightarrow>
   slice_loop keq acc (pre @ x # post) = Inl e"
  by (induction pre arbitrary: acc) auto

lemma map_loop_bad_key:
  "\<forall>e \<in> set pre. (\<exists>a. toStarlarkScalarValue (fst e) = Some a) \<and> (\<exists>w. toStarlarkValue keq (snd e) = Inr w) \<Longrightarrow>
   toStarlarkScalarValue k = None \<Longrightarrow>
   map_loop keq obj ret (pre @ (k, v) # post) = Inl (NotSupportedKeyType (Kind_of obj) obj)"
proof (induction pre arbitrary: ret)
  case Nil
  then show ?case by simp
next
  case (Cons e pre)
  obtain k' v' where e: "e = (k', v')" by (cases e)
  from Cons.prems(1) e obtain a w where a: "toStarlarkScalarValue k' = Some a"
    and w: "toStarlarkValue keq v' = Inr w" by auto
  from Cons.prems have rest: "\<forall>e \<in> set pre. (\<exists>a. toStarlarkScalarValue (fst e) = Some a) \<and> (\<exists>w. toStarlarkValue keq (snd e) = Inr w)"
    by simp
  show ?case
    using Cons.IH [OF rest Cons.prems(2)] by (simp add: e a w SetKey_scalar [OF a])
qed

lemma map_loop_fails:
  "\<exists>e \<in> set entries. toStarlarkScalarValue (fst e) = None \<Longrightarrow> isl (map_loop keq obj ret entries)"
proof (induction entries arbitrary: ret)
  case Nil
  then show ?case by simp
next
  case (Cons e entries)
  obtain k v where e: "e = (k, v)" by (cases e)
  show ?case
  proof (cases "toStarlarkScalarValue k")
    case None
    then show ?thesis by (simp add: e)
  next
    case (Some a)
    with Cons.prems e have "\<exists>e \<in> set entries. toStarlarkScalarValue (fst e) = None" by auto
    from Cons.IH [OF this] show ?thesis
      by (simp add: e Some SetKey_scalar [OF Some] split: sum.splits)
  qed
qed

subsection \<open>Lists\<close>

text \<open>
  C3. A list whose elements all convert gives a runtime list of the same length, with
  the conversion of the element at each index at that index. A list with an element
  that fails, all elements before it converting, gives the error of that element: the
  first failure of the walk from the left is what the conversion returns.
\<close>

theorem list_conversion_in_order:
  "((\<forall>i<length xs. \<exists>y. toStarlarkValue keq (xs ! i) = Inr y) \<longrightarrow>
      (\<exists>ys. toStarlarkValue keq (VSlice xs) = Inr (SList ys) \<and> length ys = length xs \<and>
         (\<forall>i<length xs. toStarlarkValue keq (xs ! i) = Inr (ys ! i))))
   \<and> (n < length zs \<and> (\<forall>j<n. \<exists>y. toStarlarkValue keq (zs ! j) = Inr y) \<and>
        toStarlarkValue keq (zs ! n) = Inl e \<longrightarrow>
      toStarlarkValue keq (VSlice zs) = Inl e)"
proof (intro conjI impI)
  assume ok: "\<forall>i<length xs. \<exists>y. toStarlarkValue keq (xs ! i) = Inr y"
  define ys where "ys = map (\<lambda>x. projr (toStarlarkValue keq x)) xs"
  have len: "length ys = length xs" by (simp add: ys_def)
  have nth: "toStarlarkValue keq (xs ! i) = Inr (ys ! i)" if "i < length xs" for i
  proof -
    from ok that obtain y where "toStarlarkValue keq (xs ! i) = Inr y" by blast
    with that show ?thesis by (simp add: ys_def)
  qed
  then have "list_all2 (\<lambda>x y. toStarlarkValue keq x = Inr y) xs ys"
    by (simp add: list_all2_conv_all_nth len)
  then have "slice_loop keq [] xs = Inr (SList ([] @ ys))" by (rule slice_loop_success)
  then have "toStarlarkValue keq (VSlice xs) = Inr (SList ys)" by (simp add: conv_VSlice)
  with len nth show "\<exists>ys. toStarlarkValue keq (VSlice xs) = Inr (SList ys) \<and>
      length ys = length xs \<and> (\<forall>i<length xs. toStarlarkValue keq (xs ! i) = Inr (ys ! i))"
    by blast
next
  assume a: "n < length zs \<and> (\<forall>j<n. \<exists>y. toStarlarkValue keq (zs ! j) = Inr y) \<and>
      toStarlarkValue keq (zs ! n) = Inl e"
  then have n: "n < length zs" and bad: "toStarlarkValue keq (zs ! n) = Inl e" by simp_all
  have split: "zs = take n zs @ zs ! n # drop (Suc n) zs"
    using n by (rule id_take_nth_drop)
  have "\<forall>x \<in> set (take n zs). \<exists>y. toStarlarkValue keq x = Inr y"
  proof
    fix x assume "x \<in> set (take n zs)"
    then obtain j where "j < length (take n zs)" and "take n zs ! j = x"
      by (auto simp: in_set_conv_nth)
    with n a show "\<exists>y. toStarlarkValue keq x = Inr y" by auto
  qed
  from slice_loop_first_error [OF this bad, of "[]" "drop (Suc n) zs"] split
  show "toStarlarkValue keq (VSlice zs) = Inl e" by (simp add: conv_VSlice)
qed

theorem list_conversion_in_order_witness:
  "toStarlarkValue (=) (VSlice [VInt 1, VString ''a'', VSlice [Nil]])
     = Inr (SList [SInt 1, SString ''a'', SList [SNone]])
   \<and> toStarlarkValue (=) (VSlice [VInt 1, VOther Chan, VMapOf])
     = Inl (NotSupportedType KChan (VOther Chan))"
  using list_conversion_in_order [of "[VInt 1, VString ''a'', VSlice [Nil]]" "(=)" 1 "[VInt 1, VOther Chan, VMapOf]"
      "NotSupportedType KChan (VOther Chan)"]
  by (simp add: toStarlarkValue.simps toStarlarkScalarValue_def MakeInt64_def NewList_def)

subsection \<open>Map keys\<close>

lemma dynamic_results:
  "DynamicValue obj \<longrightarrow>
     (\<exists>w. toStarlarkValue keq obj = Inr w) \<or> (\<exists>ob. toStarlarkValue keq obj = Inl (NotSupportedKeyType KMap ob))"
  "Kind_of obj' = KMap \<and> (\<forall>e \<in> set entries. DynamicValue (snd e)) \<longrightarrow>
     (\<exists>w. map_loop keq obj' ret entries = Inr w) \<or> (\<exists>ob. map_loop keq obj' ret entries = Inl (NotSupportedKeyType KMap ob))"
  "(\<forall>x \<in> set elements. DynamicValue x) \<longrightarrow>
     (\<exists>w. slice_loop keq starvals elements = Inr w) \<or> (\<exists>ob. slice_loop keq starvals elements = Inl (NotSupportedKeyType KMap ob))"
proof (induction keq obj and keq obj' ret entries and keq starvals elements
    rule: toStarlarkValue_map_loop_slice_loop.induct)
  case (1 keq obj)
  show ?case
  proof (cases "toStarlarkScalarValue obj")
    case (Some a)
    then show ?thesis by (simp add: toStarlarkValue.simps)
  next
    case None
    show ?thesis
    proof (cases obj)
      case (VMap m)
      then have "Kind_of obj = KMap" by simp
      from "1.IH"(1) [OF None this VMap] VMap show ?thesis
        by (simp add: conv_VMap)
    next
      case (VSlice xs)
      then have "Kind_of obj = KSlice" by simp
      from "1.IH"(2) [OF None this VSlice] VSlice show ?thesis
        by (simp add: conv_VSlice)
    qed (use None in \<open>simp_all add: toStarlarkScalarValue_def\<close>)
  qed
next
  case (2 keq obj ret)
  show ?case by simp
next
  case (3 keq obj ret k v entries)
  show ?case
  proof (cases "toStarlarkScalarValue k")
    case None
    then show ?thesis by simp
  next
    case (Some a)
    note IH1 = "3.IH"(1) [OF Some]
    show ?thesis
    proof (intro impI, elim conjE)
      assume km: "Kind_of obj = KMap" and dv: "\<forall>e\<in>set ((k, v) # entries). DynamicValue (snd e)"
      then have "DynamicValue v" by simp
      with IH1 consider w where "toStarlarkValue keq v = Inr w"
        | ob where "toStarlarkValue keq v = Inl (NotSupportedKeyType KMap ob)" by blast
      then show "(\<exists>w. map_loop keq obj ret ((k, v) # entries) = Inr w) \<or>
        (\<exists>ob. map_loop keq obj ret ((k, v) # entries) = Inl (NotSupportedKeyType KMap ob))"
      proof cases
        case 1
        from "3.IH"(2) [OF Some 1 SetKey_scalar [OF Some]] km dv
        show ?thesis by (simp add: Some 1 SetKey_scalar [OF Some])
      next
        case 2
        then show ?thesis by (simp add: Some)
      qed
    qed
  qed
next
  case (4 keq starvals)
  show ?case by simp
next
  case (5 keq starvals element elements)
  show ?case
  proof (intro impI)
    assume dv: "\<forall>x\<in>set (element # elements). DynamicValue x"
    then have "DynamicValue element" by simp
    with "5.IH"(1) consider w where "toStarlarkValue keq element = Inr w"
      | ob where "toStarlarkValue keq element = Inl (NotSupportedKeyType KMap ob)" by blast
    then show "(\<exists>w. slice_loop keq starvals (element # elements) = Inr w) \<or>
        (\<exists>ob. slice_loop keq starvals (element # elements) = Inl (NotSupportedKeyType KMap ob))"
    proof cases
      case 1
      from "5.IH"(2) [OF 1] dv show ?thesis by (simp add: 1)
    next
      case 2
      then show ?thesis by simp
    qed
  qed
qed

text \<open>
  C2. A map with an entry whose key is not a scalar (a list, a map or a value of any
  other kind) does not convert: the result is an error and no mapping. When the values
  of the map are dynamic values of the specification's data model, the error is the
  one for an unsupported key type.
\<close>

theorem non_scalar_key_fails_conversion:
  assumes "(k, v) \<in> set m" and "toStarlarkScalarValue k = None"
  shows "isl (toStarlarkValue keq (VMap m)) \<and>
    (DynamicValue (VMap m) \<longrightarrow> (\<exists>ob. toStarlarkValue keq (VMap m) = Inl (NotSupportedKeyType KMap ob)))"
proof -
  from assms have "\<exists>e \<in> set m. toStarlarkScalarValue (fst e) = None" by force
  then have f: "isl (map_loop keq (VMap m) [] m)" by (rule map_loop_fails)
  then have f': "isl (toStarlarkValue keq (VMap m))" by (simp add: conv_VMap)
  moreover have "\<exists>ob. toStarlarkValue keq (VMap m) = Inl (NotSupportedKeyType KMap ob)"
    if "DynamicValue (VMap m)"
    using dynamic_results(1) [of "VMap m" keq] that f' by auto
  ultimately show ?thesis by blast
qed

theorem non_scalar_key_fails_conversion_witness:
  "(VOther Array, VString ''b'') \<in> set [(VInt 1, VString ''a''), (VOther Array, VString ''b'')]
   \<and> toStarlarkScalarValue (VOther Array) = None
   \<and> DynamicValue (VMap [(VInt 1, VString ''a''), (VOther Array, VString ''b'')])
   \<and> isl (toStarlarkValue (=) (VMap [(VInt 1, VString ''a''), (VOther Array, VString ''b'')]))
   \<and> (\<exists>ob. toStarlarkValue (=) (VMap [(VInt 1, VString ''a''), (VOther Array, VString ''b'')])
          = Inl (NotSupportedKeyType KMap ob))"
  using non_scalar_key_fails_conversion [of "VOther Array" "VString ''b''"
      "[(VInt 1, VString ''a''), (VOther Array, VString ''b'')]" "(=)"]
  by simp

lemma key_smaller: "(k, v) \<in> set m \<Longrightarrow> size k < size (VMap m)"
  by (induction m) auto

lemma key_errors_name_maps:
  "toStarlarkValue keq obj = Inl (NotSupportedKeyType kd ob) \<longrightarrow>
     kd = KMap \<and> (\<exists>m. ob = VMap m \<and> (\<exists>e \<in> set m. toStarlarkScalarValue (fst e) = None))"
  "(\<exists>m. obj' = VMap m \<and> set entries \<subseteq> set m) \<and>
     map_loop keq obj' ret entries = Inl (NotSupportedKeyType kd ob) \<longrightarrow>
     kd = KMap \<and> (\<exists>m. ob = VMap m \<and> (\<exists>e \<in> set m. toStarlarkScalarValue (fst e) = None))"
  "slice_loop keq starvals elements = Inl (NotSupportedKeyType kd ob) \<longrightarrow>
     kd = KMap \<and> (\<exists>m. ob = VMap m \<and> (\<exists>e \<in> set m. toStarlarkScalarValue (fst e) = None))"
proof (induction keq obj and keq obj' ret entries and keq starvals elements
    rule: toStarlarkValue_map_loop_slice_loop.induct)
  case (1 keq obj)
  show ?case
  proof (cases "toStarlarkScalarValue obj")
    case (Some a)
    then show ?thesis by (simp add: toStarlarkValue.simps)
  next
    case None
    show ?thesis
    proof (cases obj)
      case (VMap m)
      then have "Kind_of obj = KMap" by simp
      from "1.IH"(1) [OF None this VMap] VMap show ?thesis
        by (simp add: conv_VMap)
    next
      case (VSlice xs)
      then have "Kind_of obj = KSlice" by simp
      from "1.IH"(2) [OF None this VSlice] VSlice show ?thesis
        by (simp add: conv_VSlice)
    next
      case (VOther x)
      then show ?thesis by (simp add: conv_other)
    qed (use None in \<open>simp_all add: toStarlarkValue.simps\<close>)
  qed
next
  case (2 keq obj ret)
  show ?case by simp
next
  case (3 keq obj ret k v entries)
  show ?case
  proof (cases "toStarlarkScalarValue k")
    case None
    show ?thesis
    proof (intro impI, elim conjE exE)
      fix m
      assume obj: "obj = VMap m" and sub: "set ((k, v) # entries) \<subseteq> set m"
        and err: "map_loop keq obj ret ((k, v) # entries) = Inl (NotSupportedKeyType kd ob)"
      from err None have "kd = Kind_of obj" and "ob = obj" by auto
      moreover from sub have "(k, v) \<in> set m" by simp
      with None have "\<exists>e \<in> set m. toStarlarkScalarValue (fst e) = None" by force
      ultimately show "kd = KMap \<and>
          (\<exists>m. ob = VMap m \<and> (\<exists>e \<in> set m. toStarlarkScalarValue (fst e) = None))"
        using obj by simp
    qed
  next
    case (Some a)
    show ?thesis
    proof (cases "toStarlarkValue keq v")
      case (Inl err)
      with "3.IH"(1) [OF Some] show ?thesis by (simp add: Some)
    next
      case (Inr w)
      from "3.IH"(2) [OF Some Inr SetKey_scalar [OF Some]]
      show ?thesis by (simp add: Some Inr SetKey_scalar [OF Some]) blast
    qed
  qed
next
  case (4 keq starvals)
  show ?case by (simp add: NewList_def)
next
  case (5 keq starvals element elements)
  show ?case
  proof (cases "toStarlarkValue keq element")
    case (Inl err)
    with "5.IH"(1) show ?thesis by simp
  next
    case (Inr w)
    from "5.IH"(2) [OF Inr] show ?thesis by (simp add: Inr)
  qed
qed

text \<open>
  C10. When the walk over a map reaches an entry whose key is not a scalar, every
  entry before it having a scalar key and a value that converts, the error carries
  the kind of the map, which is \<open>Map\<close>, and the map itself as the value to print. The
  key is not what is reported: the map is another value than its key. More generally,
  every unsupported-key error that the decoder returns, also from a nested map,
  carries the kind \<open>Map\<close> and a map that has a non-scalar key.
\<close>

theorem key_error_reports_containing_map:
  assumes "\<forall>e \<in> set pre. (\<exists>a. toStarlarkScalarValue (fst e) = Some a) \<and>
             (\<exists>w. toStarlarkValue keq (snd e) = Inr w)"
    and "toStarlarkScalarValue k = None"
  shows "toStarlarkValue keq (VMap (pre @ (k, v) # post)) =
           Inl (NotSupportedKeyType (Kind_of (VMap (pre @ (k, v) # post)))
                  (VMap (pre @ (k, v) # post)))
         \<and> Kind_of (VMap (pre @ (k, v) # post)) = KMap
         \<and> VMap (pre @ (k, v) # post) \<noteq> k
         \<and> (toStarlarkValue keq x = Inl (NotSupportedKeyType kd ob) \<longrightarrow>
              kd = KMap \<and>
              (\<exists>m. ob = VMap m \<and> (\<exists>e \<in> set m. toStarlarkScalarValue (fst e) = None)))"
proof -
  have "size k < size (VMap (pre @ (k, v) # post))"
    by (rule key_smaller [of k v]) simp
  then have "VMap (pre @ (k, v) # post) \<noteq> k" by (metis less_irrefl)
  with map_loop_bad_key [OF assms, of "VMap (pre @ (k, v) # post)" "[]" v post]
    key_errors_name_maps(1) [of keq x kd ob]
  show ?thesis by (simp add: conv_VMap)
qed

theorem key_error_reports_containing_map_witness:
  "toStarlarkScalarValue (VInt 1) = Some (SInt 1)
   \<and> toStarlarkValue (=) (VString ''a'') = Inr (SString ''a'')
   \<and> toStarlarkScalarValue (VOther Array) = None
   \<and> toStarlarkValue (=) (VMap [(VInt 1, VString ''a''), (VOther Array, VString ''b'')]) =
       Inl (NotSupportedKeyType KMap
         (VMap [(VInt 1, VString ''a''), (VOther Array, VString ''b'')]))
   \<and> VMap [(VInt 1, VString ''a''), (VOther Array, VString ''b'')] \<noteq> VOther Array"
  using key_error_reports_containing_map [of "[(VInt 1, VString ''a'')]" "(=)"
      "VOther Array" "VString ''b''" "[]"
      "VMap [(VInt 1, VString ''a''), (VOther Array, VString ''b'')]" KMap
      "VMap [(VInt 1, VString ''a''), (VOther Array, VString ''b'')]"]
  by (simp add: toStarlarkValue.simps toStarlarkScalarValue_def MakeInt64_def)

subsection \<open>The entry points\<close>

lemma unpack_one:
  "UnpackPositionalArgs fn [arg] [] 1 unpack var =
     (case unpack arg of Inl msg \<Rightarrow> Inl (ForParameter fn 1 msg) | Inr x \<Rightarrow> Inr x)"
  by (simp add: UnpackPositionalArgs_def)

lemma unpack_count:
  "length args \<noteq> 1 \<Longrightarrow>
   UnpackPositionalArgs fn args [] 1 unpack var = Inl (WrongArgumentCount fn (length args) 1)"
  by (cases args) (auto simp: UnpackPositionalArgs_def)

lemma yamlEncode_one:
  "yamlEncode writeJSON parse Marshal fn [v] kwargs =
     (case writeJSON v of
        Inl err \<Rightarrow> Inl err
      | Inr buf \<Rightarrow>
         (case Unmarshal parse buf Nil of
            Inl err \<Rightarrow> Inl err
          | Inr jsonObj \<Rightarrow>
             (case Marshal jsonObj of
                Inl err \<Rightarrow> Inl err
              | Inr yamlBytes \<Rightarrow> Inr (SString yamlBytes))))"
  unfolding yamlEncode_def unpack_one by (simp add: unpack_Value_def)

lemma yamlDecode_one:
  "yamlDecode parse keq fn [SString blob] kwargs =
     (case Unmarshal parse blob Nil of
        Inl err \<Rightarrow> Inl err
      | Inr inflated \<Rightarrow> toStarlarkValue keq inflated)"
  unfolding yamlDecode_def unpack_one by simp

text \<open>
  C4. Called with one value, the encode entry point is the composition of the JSON
  encoder, the YAML parser and the YAML serializer, its text wrapped as a runtime
  string. It fails with an error exactly when the JSON encoder fails with that error,
  or the parser fails with it on the JSON text, or the serializer fails with it on the
  parsed value; it returns a string exactly when all three steps succeed, and the
  string is the serializer's output.
\<close>

theorem encode_is_composition:
  "yamlEncode writeJSON parse Marshal fn [v] kwargs =
     map_sum id SString
       (encode_composition writeJSON (\<lambda>text. Unmarshal parse text Nil) Marshal v)
   \<and> (yamlEncode writeJSON parse Marshal fn [v] kwargs = Inl e \<longleftrightarrow>
        writeJSON v = Inl e \<or>
        (\<exists>json. writeJSON v = Inr json \<and>
           (Unmarshal parse json Nil = Inl e \<or>
            (\<exists>d. Unmarshal parse json Nil = Inr d \<and> Marshal d = Inl e))))
   \<and> (yamlEncode writeJSON parse Marshal fn [v] kwargs = Inr r \<longleftrightarrow>
        (\<exists>json d text. writeJSON v = Inr json \<and> Unmarshal parse json Nil = Inr d \<and>
           Marshal d = Inr text \<and> r = SString text))"
  by (auto simp: yamlEncode_one encode_composition_def and_then_def split: sum.splits)

text \<open>
  C5. Both entry points hand \<open>nil\<close> to \<open>UnpackPositionalArgs\<close> in place of their
  keyword arguments, so a call with one positional argument and a keyword argument
  runs the conversion and returns its result: here \<open>yaml.decode("a: 1", x=2)\<close> and
  \<open>yaml.encode(1, x=2)\<close>, for a parser, a JSON encoder and a serializer that return
  what the libraries return on these inputs. The two lemmas after it give the general
  facts: a number of positional arguments other than one is an error, and the keyword
  arguments never change the result.
\<close>

theorem keyword_arguments_are_ignored:
  "yamlDecode (\<lambda>text. Inr (Some (VMap [(VString ''a'', VInt 1)]))) (=) ''yaml.decode''
     [SString ''a: 1''] [(''x'', SInt 2)] = Inr (SDict [(SString ''a'', SInt 1)])
   \<and> yamlEncode (\<lambda>v. Inr ''1'') (\<lambda>text. Inr (Some (VInt 1))) (\<lambda>d. Inr ''1'') ''yaml.encode''
     [SInt 1] [(''x'', SInt 2)] = Inr (SString ''1'')"
  by (simp add: yamlDecode_one yamlEncode_one Unmarshal_def toStarlarkValue.simps
      toStarlarkScalarValue_def MakeInt64_def SetKey_def)

lemma positional_count:
  "length args \<noteq> 1 \<Longrightarrow>
     yamlDecode parse keq fn args kwargs = Inl (WrongArgumentCount fn (length args) 1) \<and>
     yamlEncode writeJSON parse Marshal fn args kwargs = Inl (WrongArgumentCount fn (length args) 1)"
  unfolding yamlDecode_def yamlEncode_def by (simp add: unpack_count [unfolded One_nat_def])

lemma kwargs_unused:
  "yamlDecode parse keq fn args kwargs = yamlDecode parse keq fn args [] \<and>
   yamlEncode writeJSON parse Marshal fn args kwargs = yamlEncode writeJSON parse Marshal fn args []"
  by (simp add: yamlDecode_def yamlEncode_def)

text \<open>
  C7. The module binds \<open>marshal\<close> to the builtin bound to \<open>encode\<close> and \<open>unmarshal\<close>
  to the builtin bound to \<open>decode\<close>, so calling a member under either name gives the
  same result on every input.
\<close>

theorem aliases_are_same_callables:
  "Members (NewModule L) ''marshal'' = Some (starlarkEncode L)
   \<and> Members (NewModule L) ''encode'' = Some (starlarkEncode L)
   \<and> Members (NewModule L) ''unmarshal'' = Some (starlarkDecode L)
   \<and> Members (NewModule L) ''decode'' = Some (starlarkDecode L)
   \<and> call_member (NewModule L) ''marshal'' args kwargs =
       call_member (NewModule L) ''encode'' args kwargs
   \<and> call_member (NewModule L) ''unmarshal'' args kwargs =
       call_member (NewModule L) ''decode'' args kwargs"
  by (simp add: NewModule_def call_member_def)

text \<open>
  C8. When the YAML parser finds no document in the text and stores nothing, or
  finds the null document, decoding succeeds and returns \<open>None\<close>.
\<close>

theorem no_document_decodes_to_None:
  assumes "parse blob = Inr None \<or> parse blob = Inr (Some Nil)"
  shows "yamlDecode parse keq fn [SString blob] kwargs = Inr SNone"
  using assms
  by (auto simp: yamlDecode_one Unmarshal_def toStarlarkValue.simps toStarlarkScalarValue_def)

theorem no_document_decodes_to_None_witness:
  "(\<lambda>text. if text = '''' then Inr None else Inl (Codec ''no'')) '''' = Inr None
   \<and> yamlDecode (\<lambda>text. if text = '''' then Inr None else Inl (Codec ''no'')) (=)
        ''yaml.decode'' [SString ''''] [] = Inr SNone"
  using no_document_decodes_to_None [of "\<lambda>text. if text = '''' then Inr None else Inl (Codec ''no'')" "''''" "(=)"
      "''yaml.decode''" "[]"]
  by simp

subsection \<open>Keys that convert to equal runtime keys\<close>

lemma ht_insert_keys: "fst ` set (ht_insert keq d k v) \<subseteq> insert k (fst ` set d)"
proof (induction d)
  case Nil
  show ?case by simp
next
  case (Cons e d)
  obtain k' v' where e: "e = (k', v')" by (cases e)
  show ?case
  proof (cases "keq k k'")
    case True
    with e show ?thesis by auto
  next
    case False
    with e Cons.IH show ?thesis by auto
  qed
qed

lemma dict_distinct_insert:
  "dict_distinct keq d \<Longrightarrow> dict_distinct keq (ht_insert keq d k v)"
proof (induction d)
  case Nil
  then show ?case by simp
next
  case (Cons e d)
  obtain k' v' where e: "e = (k', v')" by (cases e)
  show ?case
  proof (cases "keq k k'")
    case True
    with Cons.prems e show ?thesis by simp
  next
    case False
    have "\<not> keq (fst x) k'" if "x \<in> set (ht_insert keq d k v)" for x
    proof -
      from that ht_insert_keys [of keq d k v] have "fst x = k \<or> fst x \<in> fst ` set d" by auto
      with False Cons.prems e show ?thesis by auto
    qed
    with Cons e False show ?thesis by simp
  qed
qed

lemma ht_lookup_insert:
  assumes "symp keq" and "transp keq"
  shows "ht_lookup keq (ht_insert keq d k v) k' =
    (if keq k' k then Some v else ht_lookup keq d k')"
proof (induction d)
  case Nil
  show ?case by simp
next
  case (Cons e d)
  obtain k0 v0 where e: "e = (k0, v0)" by (cases e)
  show ?case
  proof (cases "keq k k0")
    case True
    with assms have "keq k' k \<longleftrightarrow> keq k' k0"
      by (meson sympD transpD)
    with True e show ?thesis by simp
  next
    case False
    with assms have "\<not> (keq k' k0 \<and> keq k' k)"
      by (meson sympD transpD)
    with False e Cons.IH show ?thesis by auto
  qed
qed

lemma ht_lookup_Some: "ht_lookup keq d a = Some w \<Longrightarrow> \<exists>e \<in> set d. keq a (fst e)"
  by (induction d) (auto split: if_splits)

lemma dict_distinct_single:
  assumes "symp keq" and "transp keq"
  shows "dict_distinct keq d \<Longrightarrow> length (filter (\<lambda>e. keq a (fst e)) d) \<le> 1"
proof (induction d)
  case Nil
  show ?case by simp
next
  case (Cons e d)
  obtain k v where e: "e = (k, v)" by (cases e)
  show ?case
  proof (cases "keq a k")
    case True
    have "\<not> keq a (fst x)" if "x \<in> set d" for x
    proof
      assume "keq a (fst x)"
      with True assms have "keq (fst x) k" by (meson sympD transpD)
      with Cons.prems e that show False by auto
    qed
    then have "filter (\<lambda>e. keq a (fst e)) d = []" by (simp add: filter_empty_conv)
    with True e show ?thesis by simp
  next
    case False
    with Cons e show ?thesis by simp
  qed
qed

lemma map_loop_distinct:
  "\<forall>e \<in> set entries. (\<exists>a. toStarlarkScalarValue (fst e) = Some a) \<and>
       (\<exists>w. toStarlarkValue keq (snd e) = Inr w) \<Longrightarrow>
   dict_distinct keq ret \<Longrightarrow>
   \<exists>d. map_loop keq obj ret entries = Inr (SDict d) \<and> dict_distinct keq d"
proof (induction entries arbitrary: ret)
  case Nil
  then show ?case by simp
next
  case (Cons e entries)
  obtain k v where e: "e = (k, v)" by (cases e)
  from Cons.prems(1) e obtain a w where a: "toStarlarkScalarValue k = Some a"
    and w: "toStarlarkValue keq v = Inr w" by auto
  from Cons.prems(1) have rest: "\<forall>e \<in> set entries.
      (\<exists>a. toStarlarkScalarValue (fst e) = Some a) \<and> (\<exists>w. toStarlarkValue keq (snd e) = Inr w)"
    by simp
  from Cons.IH [OF rest dict_distinct_insert [OF Cons.prems(2), of a w]]
  show ?case by (simp add: e a w SetKey_scalar [OF a])
qed

lemma map_loop_keeps:
  assumes "symp keq" and "transp keq"
  shows "\<forall>e \<in> set entries. (\<exists>a. toStarlarkScalarValue (fst e) = Some a) \<and>
       (\<exists>w. toStarlarkValue keq (snd e) = Inr w) \<Longrightarrow>
   \<forall>e \<in> set entries. \<forall>b. toStarlarkScalarValue (fst e) = Some b \<longrightarrow> \<not> keq b a \<Longrightarrow>
   \<exists>d. map_loop keq obj ret entries = Inr (SDict d) \<and> ht_lookup keq d a = ht_lookup keq ret a"
proof (induction entries arbitrary: ret)
  case Nil
  then show ?case by simp
next
  case (Cons e entries)
  obtain k v where e: "e = (k, v)" by (cases e)
  from Cons.prems(1) e obtain b w where b: "toStarlarkScalarValue k = Some b"
    and w: "toStarlarkValue keq v = Inr w" by auto
  from Cons.prems(2) e b have "\<not> keq b a" by simp
  with assms have nab: "\<not> keq a b" by (meson sympD)
  from Cons.prems have rest: "\<forall>e \<in> set entries.
      (\<exists>a. toStarlarkScalarValue (fst e) = Some a) \<and> (\<exists>w. toStarlarkValue keq (snd e) = Inr w)"
    and later: "\<forall>e \<in> set entries. \<forall>b. toStarlarkScalarValue (fst e) = Some b \<longrightarrow> \<not> keq b a"
    by simp_all
  from Cons.IH [OF rest later, of "ht_insert keq ret b w"] nab
  show ?case by (simp add: e b w SetKey_scalar [OF b] ht_lookup_insert [OF assms(1,2)])
qed

lemma map_loop_last_wins:
  assumes "symp keq" and "transp keq" and "keq a a"
  shows "\<forall>e \<in> set (pre @ (k, v) # post). (\<exists>a. toStarlarkScalarValue (fst e) = Some a) \<and>
       (\<exists>w. toStarlarkValue keq (snd e) = Inr w) \<Longrightarrow>
   toStarlarkScalarValue k = Some a \<Longrightarrow> toStarlarkValue keq v = Inr w \<Longrightarrow>
   \<forall>e \<in> set post. \<forall>b. toStarlarkScalarValue (fst e) = Some b \<longrightarrow> \<not> keq b a \<Longrightarrow>
   \<exists>d. map_loop keq obj ret (pre @ (k, v) # post) = Inr (SDict d) \<and> ht_lookup keq d a = Some w"
proof (induction pre arbitrary: ret)
  case Nil
  from Nil.prems(1) have rest: "\<forall>e \<in> set post.
      (\<exists>a. toStarlarkScalarValue (fst e) = Some a) \<and> (\<exists>w. toStarlarkValue keq (snd e) = Inr w)"
    by simp
  from assms(3) map_loop_keeps [OF assms(1,2) rest Nil.prems(4), of obj "ht_insert keq ret a w"]
  show ?case
    by (simp add: Nil.prems(2,3) SetKey_scalar [OF Nil.prems(2)] ht_lookup_insert [OF assms(1,2)])
next
  case (Cons e pre)
  obtain k' v' where e: "e = (k', v')" by (cases e)
  from Cons.prems(1) e obtain b u where b: "toStarlarkScalarValue k' = Some b"
    and u: "toStarlarkValue keq v' = Inr u" by auto
  from Cons.prems(1) have rest: "\<forall>e \<in> set (pre @ (k, v) # post).
      (\<exists>a. toStarlarkScalarValue (fst e) = Some a) \<and> (\<exists>w. toStarlarkValue keq (snd e) = Inr w)"
    by simp
  from Cons.IH [OF rest Cons.prems(2,3,4), of "ht_insert keq ret b u"]
  show ?case by (simp add: e b u SetKey_scalar [OF b])
qed

text \<open>
  C9. For an equality of the runtime that is symmetric and transitive, a map whose
  keys are all scalars and whose values all convert gives a dict and no error,
  whichever keys convert to equal runtime keys. In that dict, the value under the key
  of an entry that no later entry of the walk equals in its key is the converted
  value of that entry, so a later entry overwrites an earlier one with an equal key,
  and the dict has exactly one entry with a key equal to it. (The key is to equal
  itself, which a float that is not a number may not.)
\<close>

theorem equal_keys_overwrite:
  assumes "symp keq" and "transp keq"
    and "\<forall>e \<in> set m. (\<exists>a. toStarlarkScalarValue (fst e) = Some a) \<and>
           (\<exists>w. toStarlarkValue keq (snd e) = Inr w)"
  shows "\<exists>d. toStarlarkValue keq (VMap m) = Inr (SDict d) \<and>
    (\<forall>pre k v post a w.
       m = pre @ (k, v) # post \<and> toStarlarkScalarValue k = Some a \<and> keq a a \<and>
       toStarlarkValue keq v = Inr w \<and>
       (\<forall>e \<in> set post. \<forall>b. toStarlarkScalarValue (fst e) = Some b \<longrightarrow> \<not> keq b a) \<longrightarrow>
       ht_lookup keq d a = Some w \<and> length (filter (\<lambda>e. keq a (fst e)) d) = 1)"
proof -
  from map_loop_distinct [OF assms(3), of "[]" "VMap m"]
  obtain d where d: "map_loop keq (VMap m) [] m = Inr (SDict d)" and dd: "dict_distinct keq d"
    by auto
  have "ht_lookup keq d a = Some w \<and> length (filter (\<lambda>e. keq a (fst e)) d) = 1"
    if m: "m = pre @ (k, v) # post" and a: "toStarlarkScalarValue k = Some a"
      and refl: "keq a a" and w: "toStarlarkValue keq v = Inr w"
      and later: "\<forall>e \<in> set post. \<forall>b. toStarlarkScalarValue (fst e) = Some b \<longrightarrow> \<not> keq b a"
    for pre k v post a w
  proof -
    from assms(3) m have ok: "\<forall>e \<in> set (pre @ (k, v) # post).
        (\<exists>a. toStarlarkScalarValue (fst e) = Some a) \<and> (\<exists>w. toStarlarkValue keq (snd e) = Inr w)"
      by simp
    from map_loop_last_wins [OF assms(1,2) refl ok a w later, of "VMap m" "[]"] d m
    have l: "ht_lookup keq d a = Some w" by simp
    then have "filter (\<lambda>e. keq a (fst e)) d \<noteq> []"
      using ht_lookup_Some [OF l] by (simp add: filter_empty_conv)
    then have "1 \<le> length (filter (\<lambda>e. keq a (fst e)) d)"
      by (cases "filter (\<lambda>e. keq a (fst e)) d") simp_all
    with dict_distinct_single [OF assms(1,2) dd, of a] l show ?thesis by simp
  qed
  with d show ?thesis by (simp add: conv_VMap)
qed

theorem equal_keys_overwrite_witness:
  "symp ((=) :: starlark_value \<Rightarrow> starlark_value \<Rightarrow> bool)
   \<and> transp ((=) :: starlark_value \<Rightarrow> starlark_value \<Rightarrow> bool)
   \<and> toStarlarkScalarValue (VInt 1) = Some (SInt 1)
   \<and> toStarlarkScalarValue (VUint 1) = Some (SInt 1)
   \<and> toStarlarkValue (=) (VMap [(VInt 1, VString ''a''), (VUint 1, VString ''b'')])
       = Inr (SDict [(SInt 1, SString ''b'')])
   \<and> ht_lookup (=) [(SInt 1, SString ''b'')] (SInt 1) = Some (SString ''b'')
   \<and> length (filter (\<lambda>e. SInt 1 = fst e) [(SInt 1, SString ''b'')]) = 1"
  using equal_keys_overwrite [of "(=)" "[(VInt 1, VString ''a''), (VUint 1, VString ''b'')]"]
  by (simp add: toStarlarkValue.simps toStarlarkScalarValue_def MakeInt64_def
      MakeUint64_def SetKey_def)

subsection \<open>The round trip\<close>











end
